theory Spec2Isabelle
  imports Complex_Main "HOL-Library.AList" "HOL-Library.Word"
begin

section \<open>The Python built-ins used by \<^verbatim>\<open>tag_to_svg.py\<close>\<close>

text \<open>
  A Python \<^verbatim>\<open>str\<close> is modelled as a \<^typ>\<open>string\<close> whose characters are code points
  below 256. An exception is a value of \<open>error\<close>; a function that can raise returns
  \<open>error + 'a\<close>, with \<open>Inl\<close> for the exception.
\<close>

datatype error =
  ValueError | TypeError | IndexError | ZeroDivisionError | OSError | UnicodeEncodeError
  | AssertionError

subsection \<open>\<^verbatim>\<open>str.split(sep)\<close>, \<^verbatim>\<open>str.endswith\<close>, \<^verbatim>\<open>os.path.basename\<close>\<close>

text \<open>
  \<^verbatim>\<open>s.split(sep)\<close> with a one-character separator cuts at every occurrence and keeps
  empty pieces: \<^verbatim>\<open>'1--3'.split('-') == ['1', '', '3']\<close>, \<^verbatim>\<open>''.split(',') == ['']\<close>.
\<close>

fun split_on :: "char \<Rightarrow> string \<Rightarrow> string list" where
  "split_on sep [] = [[]]"
| "split_on sep (c # cs) =
     (let r = split_on sep cs
      in if c = sep then [] # r else (c # hd r) # tl r)"

definition endswith :: "string \<Rightarrow> string \<Rightarrow> bool" where
  "endswith s suf \<longleftrightarrow> length suf \<le> length s \<and> drop (length s - length suf) s = suf"

definition basename :: "string \<Rightarrow> string" where
  "basename p = rev (takeWhile (\<lambda>c. c \<noteq> CHR ''/'') (rev p))"

subsection \<open>\<^verbatim>\<open>int(s)\<close>\<close>

text \<open>
  \<^verbatim>\<open>int(s)\<close> in base 10: surrounding whitespace is stripped, then an optional sign, then
  decimal digits, where single underscores may stand between two digits. Among the code
  points below 256 the whitespace accepted by \<^verbatim>\<open>int\<close> is 9 to 13, 32, 133 and 160, and the
  digits are \<^verbatim>\<open>0\<close> to \<^verbatim>\<open>9\<close>. Anything else raises \<^verbatim>\<open>ValueError\<close>, which is \<open>None\<close> here.
  The interpreter's limit on the number of digits of a literal (4300 by default in recent
  versions) is not modelled.
\<close>

definition is_space :: "char \<Rightarrow> bool" where
  "is_space c \<longleftrightarrow> of_char c \<in> {9, 10, 11, 12, 13, 32, 133, 160 :: nat}"

definition is_digit :: "char \<Rightarrow> bool" where
  "is_digit c \<longleftrightarrow> 48 \<le> (of_char c :: nat) \<and> (of_char c :: nat) \<le> 57"

definition digit_val :: "char \<Rightarrow> nat" where
  "digit_val c = of_char c - 48"

definition strip :: "string \<Rightarrow> string" where
  "strip s = rev (dropWhile is_space (rev (dropWhile is_space s)))"

fun py_digits :: "nat \<Rightarrow> string \<Rightarrow> nat option" where
  "py_digits acc [] = Some acc"
| "py_digits acc [c] = (if is_digit c then Some (10 * acc + digit_val c) else None)"
| "py_digits acc (c # d # cs) =
     (if is_digit c then py_digits (10 * acc + digit_val c) (d # cs)
      else if c = CHR ''_'' \<and> is_digit d then py_digits (10 * acc + digit_val d) cs
      else None)"

definition py_nat :: "string \<Rightarrow> nat option" where
  "py_nat s = (case s of [] \<Rightarrow> None
     | c # cs \<Rightarrow> if is_digit c then py_digits (digit_val c) cs else None)"

definition py_int :: "string \<Rightarrow> int option" where
  "py_int s =
     (case strip s of [] \<Rightarrow> None
      | c # cs \<Rightarrow>
          if c = CHR ''-'' then map_option (\<lambda>n. - int n) (py_nat cs)
          else if c = CHR ''+'' then map_option int (py_nat cs)
          else map_option int (py_nat (c # cs)))"

subsection \<open>Formatting integers: \<^verbatim>\<open>str(n)\<close>, \<^verbatim>\<open>{n:05d}\<close>, \<^verbatim>\<open>{v:02x}\<close>\<close>

definition digit_char :: "nat \<Rightarrow> char" where
  "digit_char d = (if d < 10 then char_of (48 + d) else char_of (87 + d))"

fun str_radix :: "nat \<Rightarrow> nat \<Rightarrow> string" where
  "str_radix b n =
     (if b < 2 \<or> n < b then [digit_char n]
      else str_radix b (n div b) @ [digit_char (n mod b)])"

declare str_radix.simps [simp del]

definition zfill :: "nat \<Rightarrow> string \<Rightarrow> string" where
  "zfill w s = replicate (w - length s) CHR ''0'' @ s"

definition str_nat :: "nat \<Rightarrow> string" where
  "str_nat n = str_radix 10 n"

definition str_int :: "int \<Rightarrow> string" where
  "str_int i = (if i < 0 then CHR ''-'' # str_nat (nat (- i)) else str_nat (nat i))"

text \<open>\<^verbatim>\<open>f'{i:05d}'\<close>: zero padding to five characters, the sign included and leading.\<close>

definition fmt_05d :: "int \<Rightarrow> string" where
  "fmt_05d i =
     (if i < 0 then CHR ''-'' # zfill 4 (str_nat (nat (- i))) else zfill 5 (str_nat (nat i)))"

text \<open>\<^verbatim>\<open>f'{v:02x}'\<close>: lower-case hexadecimal, zero padded to two characters.\<close>

definition fmt_02x :: "nat \<Rightarrow> string" where
  "fmt_02x v = zfill 2 (str_radix 16 v)"

section \<open>The Tag Resolver: parsing \<^verbatim>\<open>--tag_id\<close> (lines 120 to 126 of \<^verbatim>\<open>main\<close>)\<close>

fun ints_of :: "string list \<Rightarrow> error + int list" where
  "ints_of [] = Inr []"
| "ints_of (tok # toks) =
     (case py_int tok of None \<Rightarrow> Inl ValueError
      | Some i \<Rightarrow> (case ints_of toks of Inl e \<Rightarrow> Inl e | Inr is \<Rightarrow> Inr (i # is)))"

text \<open>
  \<^verbatim>\<open>start, end = args.tag_id.split('-')\<close> unpacks a list of exactly two strings; any other
  length raises \<^verbatim>\<open>ValueError\<close>. \<^verbatim>\<open>range(int(start), int(end)+1)\<close> is \<open>[start..end]\<close>.
\<close>

definition resolve_ids :: "string \<Rightarrow> error + int list" where
  "resolve_ids tag_id =
     (if CHR '','' \<in> set tag_id then ints_of (split_on CHR '','' tag_id)
      else if CHR ''-'' \<in> set tag_id then
        (case split_on CHR ''-'' tag_id of
           [start, end] \<Rightarrow>
             (case py_int start of None \<Rightarrow> Inl ValueError
              | Some a \<Rightarrow>
                  (case py_int end of None \<Rightarrow> Inl ValueError
                   | Some b \<Rightarrow> Inr [a..b]))
         | _ \<Rightarrow> Inl ValueError)
      else (case py_int tag_id of None \<Rightarrow> Inl ValueError | Some i \<Rightarrow> Inr [i]))"

text \<open>
  The grammar as the specification words it, for comparison: a string with a comma is
  split on commas; otherwise a string with a dash is split on the \<^emph>\<open>first\<close> dash into
  start and end; otherwise it is a single integer.
\<close>

definition spec_tokens :: "string \<Rightarrow> string list" where
  "spec_tokens s =
     (if CHR '','' \<in> set s then split_on CHR '','' s
      else if CHR ''-'' \<in> set s then
        [takeWhile (\<lambda>c. c \<noteq> CHR ''-'') s, tl (dropWhile (\<lambda>c. c \<noteq> CHR ''-'') s)]
      else [s])"

definition spec_resolve_ids :: "string \<Rightarrow> error + int list" where
  "spec_resolve_ids s =
     (if CHR '','' \<in> set s then ints_of (spec_tokens s)
      else if CHR ''-'' \<in> set s then
        (case ints_of (spec_tokens s) of
           Inr [a, b] \<Rightarrow> Inr [a..b]
         | _ \<Rightarrow> Inl ValueError)
      else ints_of (spec_tokens s))"

section \<open>Numbers and rasters\<close>

text \<open>
  \<^verbatim>\<open>tag_size\<close> and \<^verbatim>\<open>margin\<close> are Python numbers (floats from the command line, the
  integer \<^verbatim>\<open>5\<close> for the default margin), and the emitter mixes them with integers. The
  model does not fix a number representation: \<open>'n\<close> is the type of Python numbers and an
  \<open>'n arith\<close> supplies Python's operators on them, the conversion of an \<^verbatim>\<open>int\<close>, the float
  literal \<^verbatim>\<open>0.8\<close> and the text an f-string produces for a number. Every theorem about the
  emitter holds for any such operators, binary64 arithmetic with its rounding included.
  The operators are total: the \<^verbatim>\<open>ZeroDivisionError\<close> of a division by an integer zero is a
  branch of the model, while the \<^verbatim>\<open>OverflowError\<close> of converting an integer beyond the float
  range is not modelled.
\<close>

record 'n arith =
  py_add :: "'n \<Rightarrow> 'n \<Rightarrow> 'n"
  py_sub :: "'n \<Rightarrow> 'n \<Rightarrow> 'n"
  py_mul :: "'n \<Rightarrow> 'n \<Rightarrow> 'n"
  py_div :: "'n \<Rightarrow> 'n \<Rightarrow> 'n"
  py_num :: "int \<Rightarrow> 'n"
  py_lit08 :: "'n"
  py_str :: "'n \<Rightarrow> string"

text \<open>
  Exact rational arithmetic is one instance, used to evaluate the layout formulae on
  concrete sizes. On sizes such as 37.5 and 5, whose sums and products here are binary
  fractions with few digits, binary64 arithmetic is exact and gives the same numbers. The
  instance prints a number as a fraction, which is not Python's formatting; the theorems
  are stated for any printing, and the instance is used for its plain characters only.
\<close>

definition str_rat :: "rat \<Rightarrow> string" where
  "str_rat r = (case quotient_of r of (p, q) \<Rightarrow> str_int p @ ''/'' @ str_int q)"

definition exact_arith :: "rat arith" where
  "exact_arith =
     \<lparr>py_add = (+), py_sub = (-), py_mul = (*), py_div = (/), py_num = of_int,
      py_lit08 = 4 / 5, py_str = str_rat\<rparr>"

text \<open>
  A decoded image is a numpy array of \<^verbatim>\<open>uint8\<close>: \<^verbatim>\<open>shape[0]\<close> rows and \<^verbatim>\<open>shape[1]\<close> columns,
  and \<^verbatim>\<open>tag_image[y, x]\<close> is either a scalar (a two-dimensional array, from a greyscale
  image) or the vector of the channel values of the pixel.
\<close>

datatype pixel = Gray "8 word" | Chan "8 word list"

record raster =
  shape0 :: nat
  shape1 :: nat
  pixel_at :: "nat \<Rightarrow> nat \<Rightarrow> pixel"

section \<open>The SVG Layout Emitter (\<^verbatim>\<open>gen_rgba\<close>, \<^verbatim>\<open>gen_apriltags_svg\<close>)\<close>

text \<open>
  \<^verbatim>\<open>gen_rgba\<close> unpacks its argument into exactly four values: a scalar raises
  \<^verbatim>\<open>TypeError\<close>, a vector of another length \<^verbatim>\<open>ValueError\<close>.
\<close>

definition gen_rgba :: "'n arith \<Rightarrow> pixel \<Rightarrow> error + string" where
  "gen_rgba A rbga =
     (case rbga of
        Gray v \<Rightarrow> Inl TypeError
      | Chan [r, g, b, raw_a] \<Rightarrow>
          (let a = py_div A (py_num A (uint raw_a)) (py_num A 255)
           in Inr (''rgba('' @ str_nat (unat r) @ '', '' @ str_nat (unat g) @ '', ''
                   @ str_nat (unat b) @ '', '' @ py_str A a @ '')''))
      | Chan _ \<Rightarrow> Inl ValueError)"

text \<open>Lines 105 to 107: the rectangle of the pixel \<open>(px, py)\<close>, written \<^verbatim>\<open>(_x, _y)\<close> in the source.\<close>

definition rect_elem ::
  "'n arith \<Rightarrow> string \<Rightarrow> 'n \<Rightarrow> 'n \<Rightarrow> 'n \<Rightarrow> 'n \<Rightarrow> nat \<Rightarrow> nat \<Rightarrow> 8 word list \<Rightarrow> string" where
  \<open>rect_elem A tag_name x y pix_width pix_height px py chans =
     (let rgb_hex = ''#'' @ concat (map (\<lambda>v. fmt_02x (unat v)) (take 3 chans));
          elem_id = tag_name @ ''-'' @ str_nat px @ ''-'' @ str_nat py
      in [CHR 0x09] @ ''<rect width="'' @ py_str A pix_width
         @ ''" height="'' @ py_str A pix_height
         @ ''" x="'' @ py_str A (py_add A x (py_mul A (py_num A (int px)) pix_width))
         @ ''" y="'' @ py_str A (py_add A y (py_mul A (py_num A (int py)) pix_height))
         @ ''" id="'' @ elem_id
         @ ''" style="fill:'' @ rgb_hex @ '';stroke:#000000;stroke-width:0.0"/>\<newline>'')\<close>

text \<open>Line 109, the label, and line 111, the border.\<close>

definition label_elem :: "'n arith \<Rightarrow> string \<Rightarrow> 'n \<Rightarrow> 'n \<Rightarrow> 'n \<Rightarrow> 'n \<Rightarrow> string" where
  \<open>label_elem A tag_name x y tag_size margin =
     [CHR 0x09] @ ''<text x="'' @ py_str A (py_add A x (py_div A tag_size (py_num A 2)))
     @ ''" y="'' @ py_str A (py_add A (py_add A y tag_size) (py_mul A (py_lit08 A) margin))
     @ ''" font-size="'' @ py_str A (py_mul A margin (py_lit08 A))
     @ ''" font-family="monospace" text-anchor="middle" fill="#5EEF5E">'' @ tag_name
     @ ''</text>\<newline>''\<close>

definition border_elem :: "'n arith \<Rightarrow> 'n \<Rightarrow> 'n \<Rightarrow> 'n \<Rightarrow> 'n \<Rightarrow> string" where
  \<open>border_elem A x y tag_size margin =
     [CHR 0x09] @ ''<rect width="'' @ py_str A (py_add A (py_add A tag_size margin) margin)
     @ ''" height="'' @ py_str A (py_add A (py_add A tag_size margin) margin)
     @ ''" x="'' @ py_str A (py_sub A x margin)
     @ ''" y="'' @ py_str A (py_sub A y margin)
     @ ''" fill="none" stroke="#888888" stroke-width="1"/>\<newline>''\<close>

text \<open>A \<^verbatim>\<open>for\<close> loop over a list whose body may raise: the first exception ends the loop.\<close>

fun for_each :: "('a \<Rightarrow> 's \<Rightarrow> error + 's) \<Rightarrow> 'a list \<Rightarrow> 's \<Rightarrow> error + 's" where
  "for_each body [] s = Inr s"
| "for_each body (x # xs) s =
     (case body x s of Inl e \<Rightarrow> Inl e | Inr s' \<Rightarrow> for_each body xs s')"

text \<open>
  Lines 104 to 107, the body of the inner loop. The value of \<^verbatim>\<open>gen_rgba\<close> is not used, but
  the call is made and can raise.
\<close>

definition pixel_step ::
  "'n arith \<Rightarrow> string \<Rightarrow> raster \<Rightarrow> 'n \<Rightarrow> 'n \<Rightarrow> 'n \<Rightarrow> 'n \<Rightarrow> nat \<Rightarrow> nat \<Rightarrow> string
     \<Rightarrow> error + string" where
  "pixel_step A tag_name tag_image x y pix_width pix_height py px svg_text =
     (case gen_rgba A (pixel_at tag_image py px) of
        Inl e \<Rightarrow> Inl e
      | Inr rgba \<Rightarrow>
          (case pixel_at tag_image py px of
             Gray v \<Rightarrow> Inl IndexError
           | Chan chans \<Rightarrow>
               Inr (svg_text @ rect_elem A tag_name x y pix_width pix_height px py chans)))"

text \<open>Lines 102 to 107: both pixel loops.\<close>

definition pixel_loops ::
  "'n arith \<Rightarrow> string \<Rightarrow> raster \<Rightarrow> 'n \<Rightarrow> 'n \<Rightarrow> 'n \<Rightarrow> 'n \<Rightarrow> string \<Rightarrow> error + string" where
  "pixel_loops A tag_name tag_image x y pix_width pix_height svg_text =
     for_each
       (\<lambda>py. for_each (pixel_step A tag_name tag_image x y pix_width pix_height py)
                [0..<shape1 tag_image])
       [0..<shape0 tag_image] svg_text"

text \<open>
  Lines 98 to 100: the origin of the tag in column \<open>col\<close> and row \<open>row\<close>, and the size of one
  pixel. \<^verbatim>\<open>pix_height, pix_width = [tag_size/v for v in tag_image.shape[:2]]\<close> divides by
  \<^verbatim>\<open>shape[0]\<close> for the height and by \<^verbatim>\<open>shape[1]\<close> for the width.
\<close>

definition tag_x :: "'n arith \<Rightarrow> 'n \<Rightarrow> 'n \<Rightarrow> int \<Rightarrow> 'n" where
  "tag_x A tag_size margin col =
     py_add A (py_mul A (py_num A col) (py_add A tag_size (py_mul A (py_num A 2) margin))) margin"

definition tag_y :: "'n arith \<Rightarrow> 'n \<Rightarrow> 'n \<Rightarrow> int \<Rightarrow> 'n" where
  "tag_y A tag_size margin row =
     py_add A (py_mul A (py_num A row) (py_add A tag_size (py_mul A (py_num A 2) margin))) margin"

definition pix_height :: "'n arith \<Rightarrow> 'n \<Rightarrow> raster \<Rightarrow> 'n" where
  "pix_height A tag_size tag_image = py_div A tag_size (py_num A (int (shape0 tag_image)))"

definition pix_width :: "'n arith \<Rightarrow> 'n \<Rightarrow> raster \<Rightarrow> 'n" where
  "pix_width A tag_size tag_image = py_div A tag_size (py_num A (int (shape1 tag_image)))"

text \<open>Line 101, the line printed for a tag.\<close>

definition tag_line :: "'n arith \<Rightarrow> string \<Rightarrow> 'n \<Rightarrow> 'n \<Rightarrow> 'n \<Rightarrow> 'n \<Rightarrow> string" where
  "tag_line A tag_name x y pix_w pix_h =
     tag_name @ '': posiiton ('' @ py_str A x @ '', '' @ py_str A y @ ''), pix_size (''
     @ py_str A pix_w @ '', '' @ py_str A pix_h @ '')''"

text \<open>
  Lines 95 to 111, the loop over \<^verbatim>\<open>enumerate(tag_images.items())\<close>. The state is the text
  built so far and the lines printed so far; an exception leaves the printed lines.
  \<^verbatim>\<open>tag_size/v\<close> raises \<^verbatim>\<open>ZeroDivisionError\<close> when an axis of the array has length zero.
\<close>

fun tags_loop ::
  "'n arith \<Rightarrow> 'n \<Rightarrow> 'n \<Rightarrow> int \<Rightarrow> (nat \<times> string \<times> raster) list \<Rightarrow> string \<Rightarrow> string list
     \<Rightarrow> (error + string) \<times> string list" where
  "tags_loop A tag_size margin tag_n_cols [] svg_text out = (Inr svg_text, out)"
| "tags_loop A tag_size margin tag_n_cols ((i, tag_name, tag_image) # rest) svg_text out =
     (let row = int i div tag_n_cols;
          col = int i mod tag_n_cols;
          x = tag_x A tag_size margin col;
          y = tag_y A tag_size margin row
      in if shape0 tag_image = 0 \<or> shape1 tag_image = 0 then (Inl ZeroDivisionError, out)
         else
           (let out1 = out @ [tag_line A tag_name x y (pix_width A tag_size tag_image)
                                (pix_height A tag_size tag_image)]
            in case pixel_loops A tag_name tag_image x y (pix_width A tag_size tag_image)
                      (pix_height A tag_size tag_image) svg_text of
                 Inl e \<Rightarrow> (Inl e, out1)
               | Inr svg1 \<Rightarrow>
                   tags_loop A tag_size margin tag_n_cols rest
                     (svg1 @ label_elem A tag_name x y tag_size margin
                           @ border_elem A x y tag_size margin) out1))"

text \<open>Lines 93 and 94, the XML declaration and the root element; line 113, its end.\<close>

definition svg_header :: "'n arith \<Rightarrow> 'n \<Rightarrow> 'n \<Rightarrow> string" where
  \<open>svg_header A svg_width svg_height =
     ''<?xml version="1.0" standalone="yes"?>\<newline>''
     @ ''<svg width="'' @ py_str A svg_width @ ''mm" height="'' @ py_str A svg_height
     @ ''mm" viewBox="0,0,'' @ py_str A svg_width @ '','' @ py_str A svg_height
     @ ''" xmlns="http://www.w3.org/2000/svg">\<newline>''\<close>

definition svg_footer :: string where
  "svg_footer = ''</svg>\<newline>''"

text \<open>
  Lines 83 to 85. \<^verbatim>\<open>math.ceil(len(tag_images) / cols)\<close> is the ceiling of the exact quotient:
  the float quotient of two integers is correctly rounded, and for fewer than \<open>2^53\<close> tags
  the rounding cannot reach the next integer.
\<close>

definition tag_n_rows :: "nat \<Rightarrow> int \<Rightarrow> int" where
  "tag_n_rows n cols = \<lceil>rat_of_int (int n) / rat_of_int cols\<rceil>"

definition svg_width :: "'n arith \<Rightarrow> 'n \<Rightarrow> 'n \<Rightarrow> int \<Rightarrow> 'n" where
  "svg_width A tag_size margin cols =
     py_add A (py_mul A (py_add A tag_size (py_mul A (py_num A 2) margin)) (py_num A cols)) margin"

definition svg_height :: "'n arith \<Rightarrow> 'n \<Rightarrow> 'n \<Rightarrow> int \<Rightarrow> 'n" where
  "svg_height A tag_size margin rows =
     py_add A (py_mul A (py_add A tag_size (py_mul A (py_num A 2) margin)) (py_num A rows)) margin"

text \<open>Lines 86 to 91, the lines printed before the document is built.\<close>

definition summary_lines :: "'n arith \<Rightarrow> nat \<Rightarrow> 'n \<Rightarrow> 'n \<Rightarrow> int \<Rightarrow> int \<Rightarrow> 'n \<Rightarrow> 'n \<Rightarrow> string list" where
  "summary_lines A n tag_size margin tag_n_cols rows width height =
     [''Creating SVG with size: '' @ py_str A width @ ''x'' @ py_str A height,
      ''Number of tags: '' @ str_nat n,
      ''Number of columns: '' @ str_int tag_n_cols,
      ''Number of rows: '' @ str_int rows,
      ''Tag size: '' @ py_str A tag_size @ ''mm'',
      ''Margin: '' @ py_str A margin @ ''mm'']"

text \<open>
  \<^verbatim>\<open>gen_apriltags_svg\<close>. The dictionary \<^verbatim>\<open>tag_images\<close> is an association list in insertion
  order. \<^verbatim>\<open>len(tag_images) / cols\<close> raises \<^verbatim>\<open>ZeroDivisionError\<close> for \<^verbatim>\<open>cols == 0\<close>. The
  value returned is a Python object: \<open>Some\<close> of the string, \<open>None\<close> for \<^verbatim>\<open>None\<close>. The last
  argument is the lines printed before the call.
\<close>

definition gen_apriltags_svg ::
  "'n arith \<Rightarrow> (string \<times> raster) list \<Rightarrow> 'n \<Rightarrow> 'n \<Rightarrow> int \<Rightarrow> string list
     \<Rightarrow> (error + string option) \<times> string list" where
  "gen_apriltags_svg A tag_images tag_size margin cols out =
     (if cols = 0 then (Inl ZeroDivisionError, out)
      else
        (let tag_n_cols = cols;
             rows = tag_n_rows (length tag_images) cols;
             width = svg_width A tag_size margin cols;
             height = svg_height A tag_size margin rows;
             out1 = out @ summary_lines A (length tag_images) tag_size margin tag_n_cols rows
                            width height
         in case tags_loop A tag_size margin tag_n_cols (enumerate 0 tag_images)
                   (svg_header A width height) out1 of
              (Inl e, out2) \<Rightarrow> (Inl e, out2)
            | (Inr svg_text, out2) \<Rightarrow> (Inr (Some (svg_text @ svg_footer)), out2)))"

section \<open>Notions used to state the properties\<close>

text \<open>
  The rasters the loader produces from the tag images are RGBA: both axes have a positive
  length and every pixel has four channels.
\<close>

definition is_rgba :: "pixel \<Rightarrow> bool" where
  "is_rgba p = (case p of Gray v \<Rightarrow> False | Chan cs \<Rightarrow> length cs = 4)"

definition rgba_raster :: "raster \<Rightarrow> bool" where
  "rgba_raster img \<longleftrightarrow>
     0 < shape0 img \<and> 0 < shape1 img \<and>
     list_all (\<lambda>py. list_all (\<lambda>px. is_rgba (pixel_at img py px)) [0..<shape1 img])
       [0..<shape0 img]"

definition rgba_collection :: "(string \<times> raster) list \<Rightarrow> bool" where
  "rgba_collection tag_images = list_all (\<lambda>(tag_name, img). rgba_raster img) tag_images"

definition channels :: "pixel \<Rightarrow> 8 word list" where
  "channels p = (case p of Gray v \<Rightarrow> [] | Chan cs \<Rightarrow> cs)"

text \<open>Raster scan order: the rows from the first to the last, each from left to right.\<close>

definition scan_order :: "raster \<Rightarrow> (nat \<times> nat) list" where
  "scan_order img = List.product [0..<shape0 img] [0..<shape1 img]"

text \<open>
  The elements of one tag whose origin is \<open>(x, y)\<close>: the rectangles of its pixels in scan
  order, its label, its border.
\<close>

definition pixel_rects :: "'n arith \<Rightarrow> string \<Rightarrow> raster \<Rightarrow> 'n \<Rightarrow> 'n \<Rightarrow> 'n \<Rightarrow> string list" where
  "pixel_rects A tag_name img tag_size x y =
     map (\<lambda>(py, px). rect_elem A tag_name x y (pix_width A tag_size img)
                       (pix_height A tag_size img) px py (channels (pixel_at img py px)))
       (scan_order img)"

definition tag_group :: "'n arith \<Rightarrow> string \<Rightarrow> raster \<Rightarrow> 'n \<Rightarrow> 'n \<Rightarrow> 'n \<Rightarrow> 'n \<Rightarrow> string" where
  "tag_group A tag_name img tag_size margin x y =
     concat (pixel_rects A tag_name img tag_size x y)
     @ label_elem A tag_name x y tag_size margin @ border_elem A x y tag_size margin"

text \<open>The text of the tag with index \<open>i\<close> in a grid of \<open>c\<close> columns.\<close>

definition group_at :: "'n arith \<Rightarrow> 'n \<Rightarrow> 'n \<Rightarrow> int \<Rightarrow> nat \<times> string \<times> raster \<Rightarrow> string" where
  "group_at A t m c = (\<lambda>(i, tag_name, img).
     tag_group A tag_name img t m (tag_x A t m (int i mod c)) (tag_y A t m (int i div c)))"

text \<open>The same raster with other alpha values: \<open>f py px\<close> replaces the alpha of a pixel.\<close>

definition with_alpha :: "(nat \<Rightarrow> nat \<Rightarrow> 8 word) \<Rightarrow> raster \<Rightarrow> raster" where
  "with_alpha f img =
     img\<lparr>pixel_at := \<lambda>py px.
       (case pixel_at img py px of
          Chan [r, g, b, a] \<Rightarrow> Chan [r, g, b, f py px]
        | p \<Rightarrow> p)\<rparr>"

text \<open>Reading a hexadecimal string, in either case.\<close>

definition hex_digit_value :: "char \<Rightarrow> nat" where
  "hex_digit_value c =
     (let k = (of_char c :: nat)
      in if 48 \<le> k \<and> k \<le> 57 then k - 48
         else if 97 \<le> k \<and> k \<le> 102 then k - 87
         else if 65 \<le> k \<and> k \<le> 70 then k - 55
         else 0)"

definition hex_value :: "string \<Rightarrow> nat" where
  "hex_value s = foldl (\<lambda>acc c. 16 * acc + hex_digit_value c) 0 s"

text \<open>
  A valid document. An XML tree is an element with a name, attributes and children, or
  character data; \<open>serialise\<close> writes it. A tree is well formed when its names are XML names,
  the attributes of an element have different names, and attribute values and character
  data are printable ASCII without \<^verbatim>\<open><\<close>, \<^verbatim>\<open>>\<close>, \<^verbatim>\<open>&\<close> and the double quote (character data may
  also hold tabs and newlines). A document is valid when it is the XML declaration followed
  by the text of a well-formed tree whose root is \<^verbatim>\<open>svg\<close>, and a newline.
\<close>

datatype xml = Elem string "(string \<times> string) list" "xml list" | Text string










text \<open>
  A check every valid document passes: read from left to right, a \<^verbatim>\<open><\<close> opens a tag only in
  character data, a double quote opens and closes an attribute value inside a tag, no \<^verbatim>\<open><\<close>
  stands inside a tag or a value and no \<^verbatim>\<open>&\<close> in character data or a value, and the document
  ends in character data.
\<close>

datatype lex = Content | Tag | Quoted












text \<open>A sample raster: two by two, black and white, with different alpha values.\<close>

definition sample_raster :: raster where
  "sample_raster =
     \<lparr>shape0 = 2, shape1 = 2,
      pixel_at = (\<lambda>py px. if (py + px) mod 2 = 0 then Chan [0, 0, 0, 255]
                           else Chan [255, 255, 255, 0])\<rparr>"

section \<open>The program: \<^verbatim>\<open>main\<close>\<close>

text \<open>
  What the run reads from outside is an \<open>env\<close>: the result of \<^verbatim>\<open>glob.glob\<close> for a pattern,
  \<^verbatim>\<open>os.path.exists\<close>, the array decoded from an image file (\<^verbatim>\<open>np.array(Image.open(f))\<close>, which
  is \<open>None\<close> when the file cannot be decoded and the call raises, here \<^verbatim>\<open>OSError\<close>) and
  the outcome of writing a text to a path. What it changes is the content of the files,
  a map from paths, and the printed lines.

  \<^verbatim>\<open>with open(path, 'w') as fp: fp.write(text)\<close> has four outcomes. The path cannot be opened:
  \<^verbatim>\<open>OSError\<close>, and the files are as before. The text cannot be encoded in the encoding of
  the file: \<^verbatim>\<open>fp.write\<close> raises \<^verbatim>\<open>UnicodeEncodeError\<close>, and the file, created or truncated by
  \<^verbatim>\<open>open\<close>, stays empty. The device fails while the text is written or the file closed:
  \<^verbatim>\<open>OSError\<close>, with some text left in the file. Or the file holds the text.
\<close>

datatype write_outcome = Written | OpenFailed | EncodeFailed | WriteFailed string

record env =
  glob :: "string \<Rightarrow> string list"
  path_exists :: "string \<Rightarrow> bool"
  image_open :: "string \<Rightarrow> raster option"
  file_write :: "string \<Rightarrow> string \<Rightarrow> write_outcome"

record 'n args =
  tag_family :: string
  tag_id :: string
  cols :: int
  tag_size :: 'n
  margin :: 'n
  out_file :: string

text \<open>Line 130, the files whose name ends with the suffix of the ID; line 135, the tag name.\<close>

definition tag_files :: "string list \<Rightarrow> int \<Rightarrow> string list" where
  "tag_files tag_all i =
     filter (\<lambda>file. endswith file (''_'' @ fmt_05d i @ ''.png'')) tag_all"

definition tag_name_of :: "string \<Rightarrow> string" where
  "tag_name_of tag_file = hd (split_on CHR ''.'' (basename tag_file))"

text \<open>
  Lines 128 to 140. \<^verbatim>\<open>tag_images[tag_name] = ...\<close> replaces the value of a key that is
  present, in its place, and appends a new key: \<^const>\<open>AList.update\<close>.
\<close>

fun load_tags ::
  "env \<Rightarrow> string list \<Rightarrow> int list \<Rightarrow> (string \<times> raster) list \<Rightarrow> string list
     \<Rightarrow> (error + (string \<times> raster) list) \<times> string list" where
  "load_tags E tag_all [] tag_images out = (Inr tag_images, out)"
| "load_tags E tag_all (i # ids) tag_images out =
     (case tag_files tag_all i of
        [] \<Rightarrow>
          load_tags E tag_all ids tag_images
            (out @ [''Error: Could not find tag file for tag_id: '' @ str_int i])
      | tag_file # others \<Rightarrow>
          (let tag_name = tag_name_of tag_file
           in if \<not> path_exists E tag_file then
                load_tags E tag_all ids tag_images
                  (out @ [''Error: Could not find tag file: '' @ tag_file])
              else
                (case image_open E tag_file of
                   None \<Rightarrow> (Inl OSError, out)
                 | Some tag_image \<Rightarrow>
                     load_tags E tag_all ids (AList.update tag_name tag_image tag_images) out)))"

text \<open>
  \<^verbatim>\<open>main\<close>, after \<^verbatim>\<open>parse_args\<close> has succeeded. The result is the exception that ended the
  run or \<open>()\<close>, the files and the printed lines. Printing is taken to succeed: a standard
  output that is closed, or that cannot encode a line, is outside the model.
\<close>

definition main ::
  "'n arith \<Rightarrow> env \<Rightarrow> 'n args \<Rightarrow> (string \<rightharpoonup> string)
     \<Rightarrow> (error + unit) \<times> (string \<rightharpoonup> string) \<times> string list" where
  "main A E args fs =
     (let tag_all = glob E (tag_family args @ ''/*_*.png'')
      in case resolve_ids (tag_id args) of
           Inl e \<Rightarrow> (Inl e, fs, [])
         | Inr tag_ids \<Rightarrow>
             (case load_tags E tag_all tag_ids [] [] of
                (Inl e, out) \<Rightarrow> (Inl e, fs, out)
              | (Inr tag_images, out) \<Rightarrow>
                  (case gen_apriltags_svg A tag_images (tag_size args) (margin args)
                          (cols args) out of
                     (Inl e, out1) \<Rightarrow> (Inl e, fs, out1)
                   | (Inr None, out1) \<Rightarrow> (Inl AssertionError, fs, out1)
                   | (Inr (Some apriltags_svg), out1) \<Rightarrow>
                       (case file_write E (out_file args) apriltags_svg of
                          OpenFailed \<Rightarrow> (Inl OSError, fs, out1)
                        | EncodeFailed \<Rightarrow>
                            (Inl UnicodeEncodeError, fs(out_file args \<mapsto> []), out1)
                        | WriteFailed left \<Rightarrow> (Inl OSError, fs(out_file args \<mapsto> left), out1)
                        | Written \<Rightarrow>
                            (Inr (), fs(out_file args \<mapsto> apriltags_svg),
                             out1 @ [''Output SVG file: '' @ out_file args @ '' with size: ''
                                     @ out_file args])))))"

section \<open>Notions used to state the properties of the program\<close>







text \<open>
  Sample environments: a family directory with the given files, all of them images of the
  sample raster, and a writable output; one with the tags 1 and 3, and one whose only file
  has a \<^verbatim>\<open><\<close> in its name.
\<close>

definition env_of :: "string list \<Rightarrow> env" where
  "env_of files =
     \<lparr>glob = (\<lambda>pattern. if pattern = ''tag36h11/*_*.png'' then files else []),
      path_exists = (\<lambda>path. path \<in> set files),
      image_open = (\<lambda>path. if path \<in> set files then Some sample_raster else None),
      file_write = (\<lambda>path text. Written)\<rparr>"

definition sample_files :: "string list" where
  "sample_files = [''tag36h11/tag36_11_00001.png'', ''tag36h11/tag36_11_00003.png'']"

definition sample_env :: env where
  "sample_env = env_of sample_files"


definition sample_args :: "string \<Rightarrow> rat args" where
  "sample_args spec =
     \<lparr>tag_family = ''tag36h11'', tag_id = spec, cols = 3, tag_size = 75 / 2, margin = 5,
      out_file = ''output.svg''\<rparr>"

section \<open>Properties of the built-ins\<close>

lemma split_on_not_Nil: "split_on sep s \<noteq> []"
  by (induction s) (auto simp: Let_def)

lemma split_on_absent: "sep \<notin> set s \<Longrightarrow> split_on sep s = [s]"
  by (induction s) (auto simp: Let_def)

lemma length_split_on: "length (split_on sep s) = Suc (count_list s sep)"
proof (induction s)
  case Nil
  show ?case by simp
next
  case (Cons c cs)
  have "length (tl (split_on sep cs)) = count_list cs sep"
    using Cons.IH by simp
  then show ?case
    using Cons.IH by (simp add: Let_def)
qed

lemma split_on_first:
  "sep \<in> set s \<Longrightarrow>
     split_on sep s =
       takeWhile (\<lambda>c. c \<noteq> sep) s # split_on sep (tl (dropWhile (\<lambda>c. c \<noteq> sep) s))"
proof (induction s)
  case Nil
  then show ?case by simp
next
  case (Cons c cs)
  show ?case
  proof (cases "c = sep")
    case True
    then show ?thesis by (simp add: Let_def)
  next
    case False
    with Cons.prems have "sep \<in> set cs" by simp
    from Cons.IH [OF this] False show ?thesis by (simp add: Let_def)
  qed
qed

lemma count_list_0_iff: "count_list s x = 0 \<longleftrightarrow> x \<notin> set s"
  by (induction s) auto

lemma count_list_first:
  "sep \<in> set s \<Longrightarrow> count_list s sep = Suc (count_list (tl (dropWhile (\<lambda>c. c \<noteq> sep) s)) sep)"
  by (induction s) auto

lemma split_on_once:
  assumes "count_list s sep = 1"
  shows "split_on sep s = [takeWhile (\<lambda>c. c \<noteq> sep) s, tl (dropWhile (\<lambda>c. c \<noteq> sep) s)]"
proof -
  from assms have mem: "sep \<in> set s"
    using count_list_0_iff [of s sep] by auto
  with assms have "count_list (tl (dropWhile (\<lambda>c. c \<noteq> sep) s)) sep = 0"
    using count_list_first [OF mem] by simp
  then have "sep \<notin> set (tl (dropWhile (\<lambda>c. c \<noteq> sep) s))"
    by (simp add: count_list_0_iff)
  then show ?thesis
    using split_on_first [OF mem] by (simp add: split_on_absent)
qed

lemma three_or_more:
  "3 \<le> length xs \<Longrightarrow> \<exists>a b c rest. xs = a # b # c # rest"
proof -
  assume len: "3 \<le> length xs"
  then obtain a ys where xs: "xs = a # ys" by (cases xs) auto
  with len obtain b zs where ys: "ys = b # zs" by (cases ys) auto
  with len xs obtain c rest where "zs = c # rest" by (cases zs) auto
  with xs ys show ?thesis by blast
qed

lemma split_on_many:
  assumes "2 \<le> count_list s sep"
  shows "\<exists>a b c rest. split_on sep s = a # b # c # rest"
proof -
  have "3 \<le> length (split_on sep s)"
    using assms by (simp add: length_split_on)
  then show ?thesis by (rule three_or_more)
qed

section \<open>The Tag Resolver\<close>

lemma resolve_ids_cases:
  "resolve_ids s =
     (if CHR '','' \<notin> set s \<and> 2 \<le> count_list s CHR ''-'' then Inl ValueError
      else spec_resolve_ids s)"
proof (cases "CHR '','' \<in> set s")
  case True
  then show ?thesis by (simp add: resolve_ids_def spec_resolve_ids_def spec_tokens_def)
next
  case comma: False
  show ?thesis
  proof (cases "CHR ''-'' \<in> set s")
    case False
    then have "count_list s CHR ''-'' = 0" by (simp add: count_list_0_iff)
    with comma False show ?thesis
      by (simp add: resolve_ids_def spec_resolve_ids_def spec_tokens_def split: option.splits)
  next
    case dash: True
    then have pos: "count_list s CHR ''-'' \<noteq> 0" by (simp add: count_list_0_iff)
    show ?thesis
    proof (cases "2 \<le> count_list s CHR ''-''")
      case True
      from split_on_many [OF this] obtain a b c rest
        where "split_on CHR ''-'' s = a # b # c # rest" by blast
      with comma dash True show ?thesis by (simp add: resolve_ids_def)
    next
      case False
      with pos have one: "count_list s CHR ''-'' = 1" by simp
      from comma dash False split_on_once [OF one] show ?thesis
        by (simp add: resolve_ids_def spec_resolve_ids_def spec_tokens_def split: option.splits)
    qed
  qed
qed

lemma resolve_ids_examples:
  "resolve_ids ''3'' = Inr [3]"
  "resolve_ids ''1,3,5'' = Inr [1, 3, 5]"
  "resolve_ids ''2-4'' = Inr [2, 3, 4]"
  "resolve_ids ''5-5'' = Inr [5]"
  "resolve_ids ''5-3'' = Inr []"
  by code_simp+

text \<open>
  Claim C1, as stated, fails: the specification splits a dash-separated string on the
  first dash only, so that \<^verbatim>\<open>"0--0"\<close> would be the range from 0 to \<^verbatim>\<open>int("-0")\<close>, the list
  \<open>[0]\<close>. The program splits on every dash and unpacks exactly two pieces, so it raises
  \<^verbatim>\<open>ValueError\<close> on the three pieces of \<^verbatim>\<open>"0--0"\<close>.
\<close>

theorem resolve_ids_first_dash_counterexample:
  "resolve_ids ''0--0'' = Inl ValueError \<and> spec_resolve_ids ''0--0'' = Inr [0]"
  by code_simp

text \<open>
  Claim C1, amended: the Tag Resolver produces the ID list of the specification's grammar
  for every id-specification, except that a string without a comma and with two or more
  dashes is always a fatal error (the string is split on every dash and must give exactly
  two pieces). The five examples of the claim resolve as stated.
\<close>

theorem resolve_ids_grammar:
  "resolve_ids s =
     (if CHR '','' \<notin> set s \<and> 2 \<le> count_list s CHR ''-'' then Inl ValueError
      else spec_resolve_ids s)
   \<and> resolve_ids ''3'' = Inr [3]
   \<and> resolve_ids ''1,3,5'' = Inr [1, 3, 5]
   \<and> resolve_ids ''2-4'' = Inr [2, 3, 4]
   \<and> resolve_ids ''5-5'' = Inr [5]
   \<and> resolve_ids ''5-3'' = Inr []"
  using resolve_ids_cases [of s] resolve_ids_examples by simp

theorem resolve_ids_grammar_witness:
  "resolve_ids ''2-4'' = spec_resolve_ids ''2-4'' \<and> resolve_ids ''1--3'' = Inl ValueError"
  using resolve_ids_grammar [of "''2-4''"] resolve_ids_grammar [of "''1--3''"] by simp

section \<open>The emitter on RGBA rasters\<close>

lemma for_each_append:
  assumes "\<And>x s. x \<in> set xs \<Longrightarrow> body x s = Inr (s @ f x)"
  shows "for_each body xs s = Inr (s @ concat (map f xs))"
  using assms by (induction xs arbitrary: s) simp_all

lemma concat_map_product:
  "concat (map f (List.product xs ys)) = concat (map (\<lambda>a. concat (map (\<lambda>b. f (a, b)) ys)) xs)"
  by (induction xs) (simp_all add: comp_def)

lemma is_rgba_Chan: "is_rgba p \<Longrightarrow> \<exists>r g b a. p = Chan [r, g, b, a]"
proof -
  assume "is_rgba p"
  then obtain cs where p: "p = Chan cs" and len: "length cs = 4"
    by (cases p) (auto simp: is_rgba_def)
  from len obtain r g b a where "cs = [r, g, b, a]"
    by (auto simp: length_Suc_conv numeral_eq_Suc)
  with p show ?thesis by blast
qed

lemma pixel_step_rgba:
  assumes "is_rgba (pixel_at img py px)"
  shows "pixel_step A name img x y pw ph py px svg =
           Inr (svg @ rect_elem A name x y pw ph px py (channels (pixel_at img py px)))"
proof -
  from is_rgba_Chan [OF assms] obtain r g b a
    where p: "pixel_at img py px = Chan [r, g, b, a]" by blast
  show ?thesis
    by (simp add: pixel_step_def p gen_rgba_def channels_def Let_def)
qed

lemma rgba_raster_pixel:
  "rgba_raster img \<Longrightarrow> py < shape0 img \<Longrightarrow> px < shape1 img \<Longrightarrow> is_rgba (pixel_at img py px)"
  by (simp add: rgba_raster_def list_all_iff)

lemma pixel_loops_rgba:
  assumes "rgba_raster img"
  shows "pixel_loops A name img x y (pix_width A t img) (pix_height A t img) svg =
           Inr (svg @ concat (pixel_rects A name img t x y))"
proof -
  let ?rect = "\<lambda>(py, px). rect_elem A name x y (pix_width A t img) (pix_height A t img) px py
                 (channels (pixel_at img py px))"
  have row: "for_each (pixel_step A name img x y (pix_width A t img) (pix_height A t img) py)
               [0..<shape1 img] s =
             Inr (s @ concat (map (\<lambda>px. ?rect (py, px)) [0..<shape1 img]))"
    if "py \<in> set [0..<shape0 img]" for py s
    using that assms by (intro for_each_append) (simp add: pixel_step_rgba rgba_raster_pixel)
  have "pixel_loops A name img x y (pix_width A t img) (pix_height A t img) svg =
          Inr (svg @ concat (map (\<lambda>py. concat (map (\<lambda>px. ?rect (py, px)) [0..<shape1 img]))
                  [0..<shape0 img]))"
    unfolding pixel_loops_def by (rule for_each_append) (rule row)
  then show ?thesis
    by (simp add: pixel_rects_def scan_order_def concat_map_product)
qed

lemma tags_loop_rgba:
  assumes "list_all (\<lambda>(i, name, img). rgba_raster img) items"
  shows "fst (tags_loop A t m c items svg out) =
           Inr (svg @ concat (map (group_at A t m c) items))"
  using assms
proof (induction items arbitrary: svg out)
  case Nil
  show ?case by simp
next
  case (Cons item items)
  obtain i name img where item: "item = (i, name, img)" by (cases item)
  from Cons.prems item have img: "rgba_raster img"
    and rest: "list_all (\<lambda>(i, name, img). rgba_raster img) items" by simp_all
  from img have dims: "shape0 img \<noteq> 0" "shape1 img \<noteq> 0" by (simp_all add: rgba_raster_def)
  show ?case
    unfolding item
    by (simp add: Let_def dims pixel_loops_rgba [OF img] Cons.IH [OF rest] group_at_def
        tag_group_def)
qed

lemma tags_loop_out:
  "tags_loop A t m c items svg out =
     (fst (tags_loop A t m c items svg []), out @ snd (tags_loop A t m c items svg []))"
proof (induction items arbitrary: svg out)
  case Nil
  show ?case by simp
next
  case (Cons item items)
  obtain i name img where item: "item = (i, name, img)" by (cases item)
  let ?x = "tag_x A t m (int i mod c)" and ?y = "tag_y A t m (int i div c)"
  let ?line = "tag_line A name ?x ?y (pix_width A t img) (pix_height A t img)"
  let ?px = "pixel_loops A name img ?x ?y (pix_width A t img) (pix_height A t img) svg"
  show ?case
  proof (cases "shape0 img = 0 \<or> shape1 img = 0")
    case True
    then show ?thesis unfolding item by (simp add: Let_def)
  next
    case dims: False
    show ?thesis
    proof (cases ?px)
      case (Inl e)
      with dims show ?thesis unfolding item by (simp add: Let_def)
    next
      case (Inr svg1)
      let ?svg2 = "svg1 @ label_elem A name ?x ?y t m @ border_elem A ?x ?y t m"
      have step: "tags_loop A t m c (item # items) svg o1 =
                    tags_loop A t m c items ?svg2 (o1 @ [?line])" for o1
        unfolding item using dims Inr by (simp add: Let_def)
      have a: "tags_loop A t m c items ?svg2 (out @ [?line]) =
                 (fst (tags_loop A t m c items ?svg2 []),
                  (out @ [?line]) @ snd (tags_loop A t m c items ?svg2 []))"
        by (rule Cons.IH)
      have b: "tags_loop A t m c items ?svg2 ([] @ [?line]) =
                 (fst (tags_loop A t m c items ?svg2 []),
                  ([] @ [?line]) @ snd (tags_loop A t m c items ?svg2 []))"
        by (rule Cons.IH)
      show ?thesis
        unfolding step a b by simp
    qed
  qed
qed

lemma rgba_collection_enumerate:
  "rgba_collection imgs \<Longrightarrow> list_all (\<lambda>(i, name, img). rgba_raster img) (enumerate n imgs)"
  by (induction imgs arbitrary: n) (auto simp: rgba_collection_def)

lemma gen_apriltags_svg_rgba:
  assumes "c \<noteq> 0" and "rgba_collection imgs"
  shows "fst (gen_apriltags_svg A imgs t m c out) =
           Inr (Some (svg_header A (svg_width A t m c)
                        (svg_height A t m (tag_n_rows (length imgs) c))
                      @ concat (map (group_at A t m c) (enumerate 0 imgs)) @ svg_footer))"
proof -
  let ?out1 = "out @ summary_lines A (length imgs) t m c (tag_n_rows (length imgs) c)
                  (svg_width A t m c) (svg_height A t m (tag_n_rows (length imgs) c))"
  let ?run = "tags_loop A t m c (enumerate 0 imgs)
                (svg_header A (svg_width A t m c) (svg_height A t m (tag_n_rows (length imgs) c)))
                ?out1"
  have "fst ?run =
          Inr (svg_header A (svg_width A t m c) (svg_height A t m (tag_n_rows (length imgs) c))
               @ concat (map (group_at A t m c) (enumerate 0 imgs)))"
    by (rule tags_loop_rgba) (rule rgba_collection_enumerate [OF assms(2)])
  then obtain out2 where "?run = (Inr (svg_header A (svg_width A t m c)
        (svg_height A t m (tag_n_rows (length imgs) c))
        @ concat (map (group_at A t m c) (enumerate 0 imgs))), out2)"
    by (cases ?run) simp
  with assms(1) show ?thesis
    by (simp add: gen_apriltags_svg_def Let_def)
qed

lemma gen_apriltags_svg_out:
  "gen_apriltags_svg A imgs t m c out =
     (fst (gen_apriltags_svg A imgs t m c []), out @ snd (gen_apriltags_svg A imgs t m c []))"
proof (cases "c = 0")
  case True
  then show ?thesis by (simp add: gen_apriltags_svg_def)
next
  case False
  let ?ls = "summary_lines A (length imgs) t m c (tag_n_rows (length imgs) c)
               (svg_width A t m c) (svg_height A t m (tag_n_rows (length imgs) c))"
  let ?h = "svg_header A (svg_width A t m c) (svg_height A t m (tag_n_rows (length imgs) c))"
  have a: "tags_loop A t m c (enumerate 0 imgs) ?h (out @ ?ls) =
             (fst (tags_loop A t m c (enumerate 0 imgs) ?h []),
              (out @ ?ls) @ snd (tags_loop A t m c (enumerate 0 imgs) ?h []))"
    by (rule tags_loop_out)
  have b: "tags_loop A t m c (enumerate 0 imgs) ?h ([] @ ?ls) =
             (fst (tags_loop A t m c (enumerate 0 imgs) ?h []),
              ([] @ ?ls) @ snd (tags_loop A t m c (enumerate 0 imgs) ?h []))"
    by (rule tags_loop_out)
  show ?thesis
    using False unfolding gen_apriltags_svg_def Let_def a b
    by (simp split: sum.splits)
qed

lemma gen_apriltags_svg_not_None: "fst (gen_apriltags_svg A imgs t m c out) \<noteq> Inr None"
  by (simp add: gen_apriltags_svg_def Let_def split: prod.splits sum.splits)

lemma tag_n_rows_div: "tag_n_rows n c = - ((- int n) div c)"
  using ceiling_divide_eq_div [of "int n" c, where ?'a = rat] by (simp add: tag_n_rows_def)


lemma exact_canvas:
  "svg_width exact_arith t m c = (t + 2 * m) * rat_of_int c + m"
  "svg_height exact_arith t m r = (t + 2 * m) * rat_of_int r + m"
  by (simp_all add: svg_width_def svg_height_def exact_arith_def)

section \<open>The canvas\<close>

text \<open>
  Claim C2: for a column count of at least one, the canvas of the emitted document has
  \<open>ceil(n / c)\<close> rows, the width \<open>(t + 2 m) c + m\<close> and the height \<open>(t + 2 m) rows + m\<close>, and the
  root element carries them in millimetres, with a viewBox of the same numbers. With
  \<open>t = 37.5\<close>, \<open>m = 5\<close>, \<open>c = 3\<close> and one tag the width is 147.5 and the height 52.5.
\<close>

theorem canvas_size:
  assumes "1 \<le> c" and "rgba_collection imgs"
  shows \<open>(let rows = \<lceil>rat_of_int (int (length imgs)) / rat_of_int c\<rceil>;
             W = py_add A (py_mul A (py_add A t (py_mul A (py_num A 2) m)) (py_num A c)) m;
             H = py_add A (py_mul A (py_add A t (py_mul A (py_num A 2) m)) (py_num A rows)) m
         in \<exists>body. fst (gen_apriltags_svg A imgs t m c out) =
              Inr (Some (''<?xml version="1.0" standalone="yes"?>\<newline>''
                @ ''<svg width="'' @ py_str A W @ ''mm" height="'' @ py_str A H
                @ ''mm" viewBox="0,0,'' @ py_str A W @ '','' @ py_str A H
                @ ''" xmlns="http://www.w3.org/2000/svg">\<newline>'' @ body)))
       \<and> svg_width exact_arith (75 / 2) 5 3 = 295 / 2
       \<and> svg_height exact_arith (75 / 2) 5 (tag_n_rows 1 3) = 105 / 2\<close>
proof -
  from assms(1) have c: "c \<noteq> 0" by simp
  have "fst (gen_apriltags_svg A imgs t m c out) =
          Inr (Some (svg_header A (svg_width A t m c)
                       (svg_height A t m (tag_n_rows (length imgs) c))
                     @ (concat (map (group_at A t m c) (enumerate 0 imgs)) @ svg_footer)))"
    by (rule gen_apriltags_svg_rgba [OF c assms(2)])
  then have doc: "\<exists>body. fst (gen_apriltags_svg A imgs t m c out) =
          Inr (Some (svg_header A (svg_width A t m c)
                       (svg_height A t m (tag_n_rows (length imgs) c)) @ body))"
    by blast
  have w: "svg_width exact_arith (75 / 2) 5 3 = 295 / 2"
    by (simp add: exact_canvas)
  have h: "svg_height exact_arith (75 / 2) 5 (tag_n_rows 1 3) = 105 / 2"
    by (simp add: exact_canvas tag_n_rows_div)
  from doc w h show ?thesis
    unfolding Let_def svg_header_def svg_width_def svg_height_def tag_n_rows_def
    by (simp only: append_assoc) 
qed


theorem canvas_size_witness:
  "(1::int) \<le> 3 \<and> rgba_collection [(''tag36_11_00001'', sample_raster)]
   \<and> (\<exists>body. fst (gen_apriltags_svg exact_arith [(''tag36_11_00001'', sample_raster)]
                    (75 / 2) 5 3 []) =
          Inr (Some (svg_header exact_arith (295 / 2) (105 / 2) @ body)))"
proof -
  have c: "(1::int) \<le> 3" by simp
  have imgs: "rgba_collection [(''tag36_11_00001'', sample_raster)]" by code_simp
  have "tag_n_rows (length [(''tag36_11_00001'', sample_raster)]) 3 = 1"
    unfolding tag_n_rows_div by simp
  then have rows:
    "\<lceil>rat_of_int (int (length [(''tag36_11_00001'', sample_raster)])) / rat_of_int 3\<rceil> = 1"
    unfolding tag_n_rows_def .
  have W: "py_add exact_arith (py_mul exact_arith (py_add exact_arith (75 / 2)
             (py_mul exact_arith (py_num exact_arith 2) 5)) (py_num exact_arith 3)) 5 = 295 / 2"
    by (simp add: exact_arith_def)
  have H: "py_add exact_arith (py_mul exact_arith (py_add exact_arith (75 / 2)
             (py_mul exact_arith (py_num exact_arith 2) 5)) (py_num exact_arith 1)) 5 = 105 / 2"
    by (simp add: exact_arith_def)
  from canvas_size [OF c imgs, of exact_arith "75 / 2" 5 "[]"]
  have "\<exists>body. fst (gen_apriltags_svg exact_arith [(''tag36_11_00001'', sample_raster)]
                    (75 / 2) 5 3 []) =
          Inr (Some (svg_header exact_arith (295 / 2) (105 / 2) @ body))"
    unfolding Let_def rows W H svg_header_def by (simp only: append_assoc)
  with c imgs show ?thesis by blast
qed

section \<open>Grid placement\<close>

lemma tag_group_six:
  "concat (map (group_at A t m 3)
     (enumerate 0 [(na, ra), (nb, rb), (nc, rc), (nd, rd), (ne, re), (nf, rf)])) =
   tag_group A na ra t m (tag_x A t m 0) (tag_y A t m 0)
   @ tag_group A nb rb t m (tag_x A t m 1) (tag_y A t m 0)
   @ tag_group A nc rc t m (tag_x A t m 2) (tag_y A t m 0)
   @ tag_group A nd rd t m (tag_x A t m 0) (tag_y A t m 1)
   @ tag_group A ne re t m (tag_x A t m 1) (tag_y A t m 1)
   @ tag_group A nf rf t m (tag_x A t m 2) (tag_y A t m 1)"
  by (simp add: group_at_def)

text \<open>
  Claim C3: the tag with index \<open>i\<close> in collection order, in a grid of \<open>c \<ge> 1\<close> columns, is
  placed in row \<open>i div c\<close> and column \<open>i mod c\<close>, with its origin at
  \<open>x = col (t + 2 m) + m\<close> and \<open>y = row (t + 2 m) + m\<close>: the document is the header, then for
  each tag in order its elements at that origin, then the footer. With three columns the
  tags 0, 3 and 5 of six are at (row 0, column 0), (row 1, column 0) and (row 1, column 2).
\<close>

theorem grid_placement:
  assumes "1 \<le> c" and "rgba_collection imgs"
  shows "fst (gen_apriltags_svg A imgs t m c out) =
           Inr (Some (svg_header A (svg_width A t m c)
                        (svg_height A t m (tag_n_rows (length imgs) c))
             @ concat (map (\<lambda>(i, tag_name, img).
                   let row = int i div c; col = int i mod c;
                       x = py_add A (py_mul A (py_num A col)
                             (py_add A t (py_mul A (py_num A 2) m))) m;
                       y = py_add A (py_mul A (py_num A row)
                             (py_add A t (py_mul A (py_num A 2) m))) m
                   in tag_group A tag_name img t m x y) (enumerate 0 imgs))
             @ svg_footer))
         \<and> (rgba_collection [(na, ra), (nb, rb), (nc, rc), (nd, rd), (ne, re), (nf, rf)] \<longrightarrow>
              fst (gen_apriltags_svg A [(na, ra), (nb, rb), (nc, rc), (nd, rd), (ne, re), (nf, rf)]
                     t m 3 out) =
                Inr (Some (svg_header A (svg_width A t m 3) (svg_height A t m 2)
                  @ tag_group A na ra t m (tag_x A t m 0) (tag_y A t m 0)
                  @ tag_group A nb rb t m (tag_x A t m 1) (tag_y A t m 0)
                  @ tag_group A nc rc t m (tag_x A t m 2) (tag_y A t m 0)
                  @ tag_group A nd rd t m (tag_x A t m 0) (tag_y A t m 1)
                  @ tag_group A ne re t m (tag_x A t m 1) (tag_y A t m 1)
                  @ tag_group A nf rf t m (tag_x A t m 2) (tag_y A t m 1)
                  @ svg_footer)))"
proof -
  from assms(1) have c: "c \<noteq> 0" by simp
  have grp: "group_at A t m c = (\<lambda>(i, tag_name, img).
                   let row = int i div c; col = int i mod c;
                       x = py_add A (py_mul A (py_num A col)
                             (py_add A t (py_mul A (py_num A 2) m))) m;
                       y = py_add A (py_mul A (py_num A row)
                             (py_add A t (py_mul A (py_num A 2) m))) m
                   in tag_group A tag_name img t m x y)"
    by (simp add: group_at_def tag_x_def tag_y_def Let_def)
  have general: "fst (gen_apriltags_svg A imgs t m c out) =
           Inr (Some (svg_header A (svg_width A t m c)
                        (svg_height A t m (tag_n_rows (length imgs) c))
             @ concat (map (group_at A t m c) (enumerate 0 imgs)) @ svg_footer))"
    by (rule gen_apriltags_svg_rgba [OF c assms(2)])
  have six: "fst (gen_apriltags_svg A [(na, ra), (nb, rb), (nc, rc), (nd, rd), (ne, re), (nf, rf)]
                     t m 3 out) =
                Inr (Some (svg_header A (svg_width A t m 3) (svg_height A t m 2)
                  @ tag_group A na ra t m (tag_x A t m 0) (tag_y A t m 0)
                  @ tag_group A nb rb t m (tag_x A t m 1) (tag_y A t m 0)
                  @ tag_group A nc rc t m (tag_x A t m 2) (tag_y A t m 0)
                  @ tag_group A nd rd t m (tag_x A t m 0) (tag_y A t m 1)
                  @ tag_group A ne re t m (tag_x A t m 1) (tag_y A t m 1)
                  @ tag_group A nf rf t m (tag_x A t m 2) (tag_y A t m 1)
                  @ svg_footer))"
    if wf: "rgba_collection [(na, ra), (nb, rb), (nc, rc), (nd, rd), (ne, re), (nf, rf)]"
  proof -
    have three: "(3::int) \<noteq> 0" by simp
    have rows: "tag_n_rows (length [(na, ra), (nb, rb), (nc, rc), (nd, rd), (ne, re), (nf, rf)]) 3 = 2"
      unfolding tag_n_rows_div by simp
    show ?thesis
      unfolding gen_apriltags_svg_rgba [OF three wf] rows tag_group_six
      by (simp only: append_assoc)
  qed
  from general six show ?thesis
    unfolding grp by blast
qed


theorem grid_placement_witness:
  "(1::int) \<le> 3
   \<and> rgba_collection [(''t0'', sample_raster), (''t1'', sample_raster), (''t2'', sample_raster),
         (''t3'', sample_raster), (''t4'', sample_raster), (''t5'', sample_raster)]
   \<and> fst (gen_apriltags_svg exact_arith
         [(''t0'', sample_raster), (''t1'', sample_raster), (''t2'', sample_raster),
          (''t3'', sample_raster), (''t4'', sample_raster), (''t5'', sample_raster)]
         (75 / 2) 5 3 []) =
       Inr (Some (svg_header exact_arith (295 / 2) 100
         @ tag_group exact_arith ''t0'' sample_raster (75 / 2) 5 5 5
         @ tag_group exact_arith ''t1'' sample_raster (75 / 2) 5 (105 / 2) 5
         @ tag_group exact_arith ''t2'' sample_raster (75 / 2) 5 100 5
         @ tag_group exact_arith ''t3'' sample_raster (75 / 2) 5 5 (105 / 2)
         @ tag_group exact_arith ''t4'' sample_raster (75 / 2) 5 (105 / 2) (105 / 2)
         @ tag_group exact_arith ''t5'' sample_raster (75 / 2) 5 100 (105 / 2)
         @ svg_footer))"
proof -
  have c: "(1::int) \<le> 3" by simp
  have one: "rgba_collection [(''t0'', sample_raster)]" by code_simp
  then have wf: "rgba_collection [(''t0'', sample_raster), (''t1'', sample_raster),
      (''t2'', sample_raster), (''t3'', sample_raster), (''t4'', sample_raster),
      (''t5'', sample_raster)]"
    by (simp add: rgba_collection_def)
  have pos: "tag_x exact_arith (75 / 2) 5 0 = 5" "tag_x exact_arith (75 / 2) 5 1 = 105 / 2"
    "tag_x exact_arith (75 / 2) 5 2 = 100" "tag_y exact_arith (75 / 2) 5 0 = 5"
    "tag_y exact_arith (75 / 2) 5 1 = 105 / 2"
    by (simp_all add: tag_x_def tag_y_def exact_arith_def)
  have size: "svg_width exact_arith (75 / 2) 5 3 = 295 / 2"
    "svg_height exact_arith (75 / 2) 5 2 = 100"
    by (simp_all add: exact_canvas)
  from grid_placement [OF c wf, where A = exact_arith and t = "75 / 2" and m = 5
      and out = "[]" and na = "''t0''" and ra = sample_raster and nb = "''t1''"
      and rb = sample_raster and nc = "''t2''" and rc = sample_raster and nd = "''t3''"
      and rd = sample_raster and ne = "''t4''" and re = sample_raster and nf = "''t5''"
      and rf = sample_raster]
  have "fst (gen_apriltags_svg exact_arith
         [(''t0'', sample_raster), (''t1'', sample_raster), (''t2'', sample_raster),
          (''t3'', sample_raster), (''t4'', sample_raster), (''t5'', sample_raster)]
         (75 / 2) 5 3 []) =
       Inr (Some (svg_header exact_arith (295 / 2) 100
         @ tag_group exact_arith ''t0'' sample_raster (75 / 2) 5 5 5
         @ tag_group exact_arith ''t1'' sample_raster (75 / 2) 5 (105 / 2) 5
         @ tag_group exact_arith ''t2'' sample_raster (75 / 2) 5 100 5
         @ tag_group exact_arith ''t3'' sample_raster (75 / 2) 5 5 (105 / 2)
         @ tag_group exact_arith ''t4'' sample_raster (75 / 2) 5 (105 / 2) (105 / 2)
         @ tag_group exact_arith ''t5'' sample_raster (75 / 2) 5 100 (105 / 2)
         @ svg_footer))"
    using wf unfolding pos size by blast
  with c wf show ?thesis by blast
qed

section \<open>The pixel rectangles\<close>

lemma group_at_unfold:
  "group_at A t m c = (\<lambda>(i, tag_name, img).
      let x = tag_x A t m (int i mod c); y = tag_y A t m (int i div c);
          pix_h = py_div A t (py_num A (int (shape0 img)));
          pix_w = py_div A t (py_num A (int (shape1 img)))
      in concat (map (\<lambda>(py, px). rect_elem A tag_name x y pix_w pix_h px py
                        (channels (pixel_at img py px))) (scan_order img))
         @ label_elem A tag_name x y t m @ border_elem A x y t m)"
  by (simp add: group_at_def tag_group_def pixel_rects_def pix_width_def pix_height_def Let_def)

lemma rect_elem_size:
  \<open>\<exists>rest. rect_elem A tag_name x y pw ph px py chans =
      [CHR 0x09] @ ''<rect width="'' @ py_str A pw @ ''" height="'' @ py_str A ph
      @ ''" x="'' @ rest\<close>
  unfolding rect_elem_def Let_def by (rule exI, rule refl)

text \<open>
  Claim C6: the size of a pixel pairs \<open>tag_size\<close> with the length of the first axis of the
  raster for the height and with the length of the second axis for the width, and every
  pixel rectangle is emitted with exactly this width and this height.
\<close>

theorem pixel_rect_size:
  assumes "1 \<le> c" and "rgba_collection imgs"
  shows \<open>fst (gen_apriltags_svg A imgs t m c out) =
           Inr (Some (svg_header A (svg_width A t m c)
                        (svg_height A t m (tag_n_rows (length imgs) c))
             @ concat (map (\<lambda>(i, tag_name, img).
                   let x = tag_x A t m (int i mod c); y = tag_y A t m (int i div c);
                       pix_h = py_div A t (py_num A (int (shape0 img)));
                       pix_w = py_div A t (py_num A (int (shape1 img)))
                   in concat (map (\<lambda>(py, px). rect_elem A tag_name x y pix_w pix_h px py
                                     (channels (pixel_at img py px))) (scan_order img))
                      @ label_elem A tag_name x y t m @ border_elem A x y t m)
                 (enumerate 0 imgs))
             @ svg_footer))
         \<and> (\<exists>rest. rect_elem A tag_name x y pix_w pix_h px py chans =
               [CHR 0x09] @ ''<rect width="'' @ py_str A pix_w @ ''" height="'' @ py_str A pix_h
               @ ''" x="'' @ rest)\<close>
proof -
  from assms(1) have c: "c \<noteq> 0" by simp
  show ?thesis
    using gen_apriltags_svg_rgba [OF c assms(2), of A t m out] rect_elem_size [of A tag_name x y pix_w pix_h px py chans]
    unfolding group_at_unfold by (rule conjI)
qed

lemma sample_collection_rgba: "rgba_collection [(''tag36_11_00001'', sample_raster)]"
  by code_simp

theorem pixel_rect_size_witness:
  \<open>(1::int) \<le> 3 \<and> rgba_collection [(''tag36_11_00001'', sample_raster)]
   \<and> fst (gen_apriltags_svg exact_arith [(''tag36_11_00001'', sample_raster)] (75 / 2) 5 3 []) =
       Inr (Some (svg_header exact_arith (295 / 2) (105 / 2)
         @ concat (map (\<lambda>(py, px). rect_elem exact_arith ''tag36_11_00001'' 5 5 (75 / 4) (75 / 4)
                          px py (channels (pixel_at sample_raster py px)))
                     [(0, 0), (0, 1), (1, 0), (1, 1)])
         @ label_elem exact_arith ''tag36_11_00001'' 5 5 (75 / 2) 5
         @ border_elem exact_arith 5 5 (75 / 2) 5
         @ svg_footer))\<close>
proof -
  have c: "(1::int) \<le> 3" by simp
  have pos: "tag_x exact_arith (75 / 2) 5 0 = 5" "tag_y exact_arith (75 / 2) 5 0 = 5"
    by (simp_all add: tag_x_def tag_y_def exact_arith_def)
  have size: "svg_width exact_arith (75 / 2) 5 3 = 295 / 2"
    "svg_height exact_arith (75 / 2) 5 (tag_n_rows (Suc 0) 3) = 105 / 2"
    by (simp_all add: exact_canvas tag_n_rows_div)
  have pix: "py_div exact_arith (75 / 2) (py_num exact_arith 2) = 75 / 4"
    by (simp add: exact_arith_def)
  have scan: "scan_order sample_raster = [(0, 0), (0, 1), (1, 0), (1, 1)]"
    by code_simp
  have shape: "shape0 sample_raster = 2" "shape1 sample_raster = 2"
    by (simp_all add: sample_raster_def)
  from pixel_rect_size [OF c sample_collection_rgba, of exact_arith "75 / 2" 5 "[]"]
  have "fst (gen_apriltags_svg exact_arith [(''tag36_11_00001'', sample_raster)] (75 / 2) 5 3 []) =
       Inr (Some (svg_header exact_arith (295 / 2) (105 / 2)
         @ concat (map (\<lambda>(py, px). rect_elem exact_arith ''tag36_11_00001'' 5 5 (75 / 4) (75 / 4)
                          px py (channels (pixel_at sample_raster py px)))
                     [(0, 0), (0, 1), (1, 0), (1, 1)])
         @ label_elem exact_arith ''tag36_11_00001'' 5 5 (75 / 2) 5
         @ border_elem exact_arith 5 5 (75 / 2) 5
         @ svg_footer))"
    by (simp add: Let_def pos size pix scan shape)
  with c sample_collection_rgba show ?thesis by blast
qed

section \<open>Scan order and fill colour\<close>

lemma scan_order_length: "length (scan_order img) = shape0 img * shape1 img"
  by (simp add: scan_order_def)

lemma scan_order_nth:
  assumes "py < shape0 img" and "px < shape1 img"
  shows "scan_order img ! (py * shape1 img + px) = (py, px)"
proof -
  have "py * shape1 img + px < Suc py * shape1 img"
    using assms(2) by simp
  also have "\<dots> \<le> shape0 img * shape1 img"
    using assms(1) by (intro mult_le_mono1) simp
  finally have lt: "py * shape1 img + px < length [0..<shape0 img] * length [0..<shape1 img]"
    by simp
  show ?thesis
    unfolding scan_order_def product_nth [OF lt]
    using assms by simp
qed

lemma hex_digit_value_digit_char: "d < 16 \<Longrightarrow> hex_digit_value (digit_char d) = d"
  by (simp add: hex_digit_value_def digit_char_def of_char_of Let_def)

lemma str_radix_small: "n < 16 \<Longrightarrow> str_radix 16 n = [digit_char n]"
  by (simp add: str_radix.simps [of 16 n])

lemma digit_char_0: "digit_char 0 = CHR ''0''"
  by code_simp

lemma fmt_02x_byte:
  assumes "n < 256"
  shows "fmt_02x n = [digit_char (n div 16), digit_char (n mod 16)]"
proof (cases "n < 16")
  case True
  then show ?thesis
    by (simp add: fmt_02x_def zfill_def str_radix_small digit_char_0)
next
  case False
  from assms have "n div 16 < 16" by simp
  with False show ?thesis
    by (simp add: fmt_02x_def zfill_def str_radix.simps [of 16 n] str_radix_small)
qed

lemma fmt_02x_word: "length (fmt_02x (unat (v :: 8 word))) = 2 \<and> hex_value (fmt_02x (unat v)) = unat v"
proof -
  have lt: "unat v < 256" using unsigned_less [of v] by simp
  then have "unat v div 16 < 16" by simp
  then show ?thesis
    by (simp add: fmt_02x_byte [OF lt] hex_value_def hex_digit_value_digit_char)
qed

lemma rect_elem_fill:
  \<open>\<exists>before. \<forall>a. rect_elem A tag_name x y pw ph px py [r, g, b, a] =
      before @ ''" style="fill:#'' @ fmt_02x (unat r) @ fmt_02x (unat g) @ fmt_02x (unat b)
      @ '';stroke:#000000;stroke-width:0.0"/>\<newline>''\<close>
proof -
  let ?before = \<open>[CHR 0x09] @ ''<rect width="'' @ py_str A pw
         @ ''" height="'' @ py_str A ph
         @ ''" x="'' @ py_str A (py_add A x (py_mul A (py_num A (int px)) pw))
         @ ''" y="'' @ py_str A (py_add A y (py_mul A (py_num A (int py)) ph))
         @ ''" id="'' @ tag_name @ ''-'' @ str_nat px @ ''-'' @ str_nat py\<close>
  have "rect_elem A tag_name x y pw ph px py [r, g, b, a] =
      ?before @ ''\"'' @ '' style=\"fill:#'' @ fmt_02x (unat r) @ fmt_02x (unat g) @ fmt_02x (unat b)
      @ '';stroke:#000000;stroke-width:0.0\"/>\<newline>''" for a
    by (simp add: rect_elem_def)
  then show ?thesis by (intro exI [of _ ?before]) simp
qed


lemma with_alpha_shape [simp]:
  "shape0 (with_alpha f img) = shape0 img" "shape1 (with_alpha f img) = shape1 img"
  by (simp_all add: with_alpha_def)

lemma with_alpha_pixel:
  assumes "is_rgba (pixel_at img py px)"
  shows "is_rgba (pixel_at (with_alpha f img) py px)"
    and "take 3 (channels (pixel_at (with_alpha f img) py px)) =
         take 3 (channels (pixel_at img py px))"
proof -
  from is_rgba_Chan [OF assms] obtain r g b a
    where p: "pixel_at img py px = Chan [r, g, b, a]" by blast
  then have q: "pixel_at (with_alpha f img) py px = Chan [r, g, b, f py px]"
    by (simp add: with_alpha_def)
  show "is_rgba (pixel_at (with_alpha f img) py px)"
    by (simp add: q is_rgba_def)
  show "take 3 (channels (pixel_at (with_alpha f img) py px)) =
        take 3 (channels (pixel_at img py px))"
    by (simp add: p q channels_def)
qed

lemma with_alpha_rgba: "rgba_raster img \<Longrightarrow> rgba_raster (with_alpha f img)"
  by (simp add: rgba_raster_def list_all_iff with_alpha_pixel(1))

lemma rect_elem_rgb:
  "take 3 chans = take 3 chans' \<Longrightarrow>
     rect_elem A tag_name x y pw ph px py chans = rect_elem A tag_name x y pw ph px py chans'"
  by (simp add: rect_elem_def)

lemma scan_order_set: "(py, px) \<in> set (scan_order img) \<longleftrightarrow> py < shape0 img \<and> px < shape1 img"
  by (auto simp: scan_order_def)

lemma tag_group_with_alpha:
  assumes "rgba_raster img"
  shows "tag_group A tag_name (with_alpha f img) t m x y = tag_group A tag_name img t m x y"
proof -
  have "pixel_rects A tag_name (with_alpha f img) t x y = pixel_rects A tag_name img t x y"
    unfolding pixel_rects_def
  proof (rule map_cong)
    show "scan_order (with_alpha f img) = scan_order img"
      by (simp add: scan_order_def)
  next
    fix p assume "p \<in> set (scan_order img)"
    moreover obtain py px where p: "p = (py, px)" by (cases p)
    ultimately have "py < shape0 img" "px < shape1 img"
      by (simp_all add: scan_order_set)
    with assms have "is_rgba (pixel_at img py px)" by (simp add: rgba_raster_pixel)
    from with_alpha_pixel(2) [OF this, of f]
    have "rect_elem A tag_name x y (pix_width A t img) (pix_height A t img) px py
            (channels (pixel_at (with_alpha f img) py px)) =
          rect_elem A tag_name x y (pix_width A t img) (pix_height A t img) px py
            (channels (pixel_at img py px))"
      by (rule rect_elem_rgb)
    then show "(case p of (py, px) \<Rightarrow> rect_elem A tag_name x y (pix_width A t (with_alpha f img))
              (pix_height A t (with_alpha f img)) px py
              (channels (pixel_at (with_alpha f img) py px))) =
          (case p of (py, px) \<Rightarrow> rect_elem A tag_name x y (pix_width A t img)
              (pix_height A t img) px py (channels (pixel_at img py px)))"
      unfolding p by (simp add: pix_width_def pix_height_def)
  qed
  then show ?thesis by (simp add: tag_group_def)
qed

lemma groups_with_alpha:
  assumes "rgba_collection imgs"
  shows "map (group_at A t m c) (enumerate k (map (\<lambda>(n, img). (n, with_alpha (f n) img)) imgs)) =
         map (group_at A t m c) (enumerate k imgs)"
  using assms
proof (induction imgs arbitrary: k)
  case Nil
  show ?case by simp
next
  case (Cons p imgs)
  obtain n img where p: "p = (n, img)" by (cases p)
  from Cons.prems p have img: "rgba_raster img" and rest: "rgba_collection imgs"
    by (simp_all add: rgba_collection_def)
  have head: "group_at A t m c (k, n, with_alpha (f n) img) = group_at A t m c (k, n, img)"
    by (simp add: group_at_def tag_group_with_alpha [OF img])
  show ?case
    unfolding p by (simp add: head Cons.IH [OF rest])
qed

lemma collection_with_alpha:
  "rgba_collection imgs \<Longrightarrow> rgba_collection (map (\<lambda>(n, img). (n, with_alpha (f n) img)) imgs)"
  by (induction imgs) (auto simp: rgba_collection_def with_alpha_rgba)

lemma gen_apriltags_svg_alpha:
  assumes "c \<noteq> 0" and "rgba_collection imgs"
  shows "fst (gen_apriltags_svg A (map (\<lambda>(n, img). (n, with_alpha (f n) img)) imgs) t m c out) =
         fst (gen_apriltags_svg A imgs t m c out)"
  unfolding gen_apriltags_svg_rgba [OF assms]
    gen_apriltags_svg_rgba [OF assms(1) collection_with_alpha [OF assms(2)]]
  by (simp add: groups_with_alpha [OF assms(2)])


text \<open>
  Claim C4: every pixel of every raster of the collection produces exactly one rectangle,
  the rectangles of a raster stand in raster scan order, and the fill of a rectangle is
  the red, green and blue values of its pixel as six hexadecimal digits, whatever the
  alpha value of the pixel: the document does not change when the alpha values do.
\<close>

theorem pixel_rect_fill:
  assumes "1 \<le> c" and "rgba_collection imgs"
  shows \<open>fst (gen_apriltags_svg A imgs t m c out) =
           Inr (Some (svg_header A (svg_width A t m c)
                        (svg_height A t m (tag_n_rows (length imgs) c))
             @ concat (map (\<lambda>(i, tag_name, img).
                   let x = tag_x A t m (int i mod c); y = tag_y A t m (int i div c);
                       pix_h = py_div A t (py_num A (int (shape0 img)));
                       pix_w = py_div A t (py_num A (int (shape1 img)))
                   in concat (map (\<lambda>(py, px). rect_elem A tag_name x y pix_w pix_h px py
                                     (channels (pixel_at img py px))) (scan_order img))
                      @ label_elem A tag_name x y t m @ border_elem A x y t m)
                 (enumerate 0 imgs))
             @ svg_footer))
         \<and> length (scan_order img) = shape0 img * shape1 img
         \<and> (\<forall>py < shape0 img. \<forall>px < shape1 img. scan_order img ! (py * shape1 img + px) = (py, px))
         \<and> (\<exists>before. \<forall>a. rect_elem A tag_name x y pix_w pix_h qx qy [r, g, b, a] =
               before @ ''" style="fill:#'' @ fmt_02x (unat r) @ fmt_02x (unat g)
               @ fmt_02x (unat b) @ '';stroke:#000000;stroke-width:0.0"/>\<newline>'')
         \<and> length (fmt_02x (unat (v :: 8 word))) = 2
         \<and> hex_value (fmt_02x (unat v)) = unat v
         \<and> fst (gen_apriltags_svg A (map (\<lambda>(n, img). (n, with_alpha (f n) img)) imgs) t m c out) =
             fst (gen_apriltags_svg A imgs t m c out)\<close>
proof -
  from assms(1) have c: "c \<noteq> 0" by simp
  have doc: "fst (gen_apriltags_svg A imgs t m c out) =
           Inr (Some (svg_header A (svg_width A t m c)
                        (svg_height A t m (tag_n_rows (length imgs) c))
             @ concat (map (\<lambda>(i, tag_name, img).
                   let x = tag_x A t m (int i mod c); y = tag_y A t m (int i div c);
                       pix_h = py_div A t (py_num A (int (shape0 img)));
                       pix_w = py_div A t (py_num A (int (shape1 img)))
                   in concat (map (\<lambda>(py, px). rect_elem A tag_name x y pix_w pix_h px py
                                     (channels (pixel_at img py px))) (scan_order img))
                      @ label_elem A tag_name x y t m @ border_elem A x y t m)
                 (enumerate 0 imgs))
             @ svg_footer))"
    using gen_apriltags_svg_rgba [OF c assms(2), of A t m out] unfolding group_at_unfold .
  have order: "\<forall>py < shape0 img. \<forall>px < shape1 img. scan_order img ! (py * shape1 img + px) = (py, px)"
    by (simp add: scan_order_nth)
  note fill = rect_elem_fill [of A tag_name x y pix_w pix_h qx qy r g b]
  note hex = fmt_02x_word [of v]
  note alpha = gen_apriltags_svg_alpha [OF c assms(2), of A f t m out]
  from doc scan_order_length [of img] order fill hex alpha show ?thesis
    by (intro conjI) (erule conjunct1 conjunct2 | assumption)+
qed

theorem pixel_rect_fill_witness:
  "(1::int) \<le> 3 \<and> rgba_collection [(''tag36_11_00001'', sample_raster)]
   \<and> fst (gen_apriltags_svg exact_arith
        [(''tag36_11_00001'', with_alpha (\<lambda>py px. 128) sample_raster)] (75 / 2) 5 3 []) =
      fst (gen_apriltags_svg exact_arith [(''tag36_11_00001'', sample_raster)] (75 / 2) 5 3 [])
   \<and> fmt_02x (unat (255 :: 8 word)) = ''ff''"
proof -
  have c: "(1::int) \<le> 3" by simp
  have ff: "fmt_02x (unat (255 :: 8 word)) = ''ff''" by code_simp
  from pixel_rect_fill [OF c sample_collection_rgba, where A = exact_arith and t = "75 / 2"
      and m = 5 and out = "[]" and f = "\<lambda>n py px. 128"]
  have "fst (gen_apriltags_svg exact_arith
        [(''tag36_11_00001'', with_alpha (\<lambda>py px. 128) sample_raster)] (75 / 2) 5 3 []) =
      fst (gen_apriltags_svg exact_arith [(''tag36_11_00001'', sample_raster)] (75 / 2) 5 3 [])"
    by simp
  with c sample_collection_rgba ff show ?thesis by blast
qed

section \<open>The empty collection\<close>


section \<open>The assertion of \<^verbatim>\<open>main\<close>\<close>

lemma for_each_error:
  assumes "\<And>x s e. body x s = Inl e \<Longrightarrow> P e"
    and "for_each body xs s = Inl e"
  shows "P e"
  using assms(2)
proof (induction xs arbitrary: s)
  case Nil
  then show ?case by simp
next
  case (Cons x xs)
  show ?case
  proof (cases "body x s")
    case (Inl e')
    with Cons.prems have "e' = e" by simp
    with Inl assms(1) show ?thesis by blast
  next
    case (Inr s')
    with Cons.prems have "for_each body xs s' = Inl e" by simp
    then show ?thesis by (rule Cons.IH)
  qed
qed

lemma pixel_step_error:
  "pixel_step A name img x y pw ph py px svg = Inl e \<Longrightarrow> e \<noteq> AssertionError"
  by (auto simp: pixel_step_def gen_rgba_def Let_def split: sum.splits pixel.splits list.splits)

lemma pixel_loops_error:
  assumes "pixel_loops A name img x y pw ph svg = Inl e"
  shows "e \<noteq> AssertionError"
proof -
  have inner: "e' \<noteq> AssertionError"
    if "for_each (pixel_step A name img x y pw ph py) [0..<shape1 img] s = Inl e'" for py s e'
    using pixel_step_error that
    by (rule for_each_error [where P = "\<lambda>e. e \<noteq> AssertionError"])
  from inner assms [unfolded pixel_loops_def] show ?thesis
    by (rule for_each_error [where P = "\<lambda>e. e \<noteq> AssertionError"])
qed

lemma tags_loop_error:
  "fst (tags_loop A t m c items svg out) = Inl e \<Longrightarrow> e \<noteq> AssertionError"
proof (induction items arbitrary: svg out)
  case Nil
  then show ?case by simp
next
  case (Cons item items)
  obtain i name img where item: "item = (i, name, img)" by (cases item)
  let ?x = "tag_x A t m (int i mod c)" and ?y = "tag_y A t m (int i div c)"
  let ?px = "pixel_loops A name img ?x ?y (pix_width A t img) (pix_height A t img) svg"
  show ?case
  proof (cases "shape0 img = 0 \<or> shape1 img = 0")
    case True
    with Cons.prems show ?thesis unfolding item by (auto simp: Let_def)
  next
    case dims: False
    show ?thesis
    proof (cases ?px)
      case (Inl e')
      with dims Cons.prems have "e' = e" unfolding item by (simp add: Let_def)
      with Inl show ?thesis by (auto dest: pixel_loops_error)
    next
      case (Inr svg1)
      with dims Cons.prems have "fst (tags_loop A t m c items
          (svg1 @ label_elem A name ?x ?y t m @ border_elem A ?x ?y t m)
          (out @ [tag_line A name ?x ?y (pix_width A t img) (pix_height A t img)])) = Inl e"
        unfolding item by (simp add: Let_def)
      then show ?thesis by (rule Cons.IH)
    qed
  qed
qed

lemma gen_apriltags_svg_error:
  "fst (gen_apriltags_svg A imgs t m c out) = Inl e \<Longrightarrow> e \<noteq> AssertionError"
proof (cases "c = 0")
  case True
  assume "fst (gen_apriltags_svg A imgs t m c out) = Inl e"
  with True show ?thesis by (simp add: gen_apriltags_svg_def)
next
  case False
  assume err: "fst (gen_apriltags_svg A imgs t m c out) = Inl e"
  let ?run = "tags_loop A t m c (enumerate 0 imgs)
     (svg_header A (svg_width A t m c) (svg_height A t m (tag_n_rows (length imgs) c)))
     (out @ summary_lines A (length imgs) t m c (tag_n_rows (length imgs) c)
        (svg_width A t m c) (svg_height A t m (tag_n_rows (length imgs) c)))"
  from err False have "fst ?run = Inl e"
    by (cases ?run) (auto simp: gen_apriltags_svg_def Let_def split: sum.splits)
  then show ?thesis by (rule tags_loop_error)
qed

lemma ints_of_error: "ints_of toks = Inl e \<Longrightarrow> e = ValueError"
  by (induction toks arbitrary: e) (auto split: option.splits sum.splits)

lemma resolve_ids_error: "resolve_ids s = Inl e \<Longrightarrow> e = ValueError"
  by (auto simp: resolve_ids_def split: if_splits list.splits option.splits dest: ints_of_error)

lemma load_tags_error: "fst (load_tags E tag_all ids imgs out) = Inl e \<Longrightarrow> e = OSError"
  by (induction ids arbitrary: imgs out)
     (auto simp: Let_def split: list.splits if_splits option.splits)

lemma main_no_assertion: "fst (main A E args fs) \<noteq> Inl AssertionError"
proof
  assume bad: "fst (main A E args fs) = Inl AssertionError"
  show False
  proof (cases "resolve_ids (tag_id args)")
    case (Inl e)
    with bad resolve_ids_error [OF Inl] show False by (simp add: main_def)
  next
    case ids: (Inr tag_ids)
    let ?load = "load_tags E (glob E (tag_family args @ ''/*_*.png'')) tag_ids [] []"
    obtain r1 out where load: "?load = (r1, out)" by (cases ?load)
    show False
    proof (cases r1)
      case (Inl e)
      with load have "fst ?load = Inl e" by simp
      from load_tags_error [OF this] bad ids load Inl show False by (simp add: main_def)
    next
      case imgs: (Inr tag_images)
      let ?gen = "gen_apriltags_svg A tag_images (tag_size args) (margin args) (cols args) out"
      obtain r2 out1 where gen: "?gen = (r2, out1)" by (cases ?gen)
      show False
      proof (cases r2)
        case (Inl e)
        with gen have "fst ?gen = Inl e" by simp
        from gen_apriltags_svg_error [OF this] bad ids load imgs gen Inl show False
          by (simp add: main_def)
      next
        case (Inr v)
        from gen Inr gen_apriltags_svg_not_None [of A tag_images "tag_size args" "margin args" "cols args" out]
        obtain svg where "v = Some svg" by (cases v) auto
        with bad ids load imgs gen Inr show False
          by (simp add: main_def split: write_outcome.splits)
      qed
    qed
  qed
qed

text \<open>
  Claim C10: \<^verbatim>\<open>gen_apriltags_svg\<close> never returns \<^verbatim>\<open>None\<close>, and for a column count of at least
  one it returns a string for every collection of RGBA rasters; so the assertion of \<^verbatim>\<open>main\<close>
  on its value never fails: no run of \<^verbatim>\<open>main\<close> ends with \<^verbatim>\<open>AssertionError\<close>.
\<close>

theorem svg_never_None:
  "fst (gen_apriltags_svg A imgs t m c out) \<noteq> Inr None
   \<and> (1 \<le> c \<and> rgba_collection imgs \<longrightarrow>
        (\<exists>svg. fst (gen_apriltags_svg A imgs t m c out) = Inr (Some svg)))
   \<and> fst (main A E args fs) \<noteq> Inl AssertionError"
proof -
  have "\<exists>svg. fst (gen_apriltags_svg A imgs t m c out) = Inr (Some svg)"
    if "1 \<le> c" "rgba_collection imgs"
  proof -
    from that(1) have "c \<noteq> 0" by simp
    from gen_apriltags_svg_rgba [OF this that(2), of A t m out] show ?thesis by blast
  qed
  with gen_apriltags_svg_not_None [of A imgs t m c out] main_no_assertion [of A E args fs]
  show ?thesis by blast
qed

theorem svg_never_None_witness:
  "(1::int) \<le> 3 \<and> rgba_collection [(''tag36_11_00001'', sample_raster)]
   \<and> (\<exists>svg. fst (gen_apriltags_svg exact_arith [(''tag36_11_00001'', sample_raster)]
                   (75 / 2) 5 3 []) = Inr (Some svg))"
proof -
  have c: "(1::int) \<le> 3" by simp
  from svg_never_None [of exact_arith "[(''tag36_11_00001'', sample_raster)]" "75 / 2" 5 3 "[]"]
    c sample_collection_rgba
  show ?thesis by blast
qed

section \<open>A malformed id-specification\<close>

lemma ints_of_fail: "\<exists>tok\<in>set toks. py_int tok = None \<Longrightarrow> ints_of toks = Inl ValueError"
proof (induction toks)
  case Nil
  then show ?case by simp
next
  case (Cons tok toks)
  show ?case
  proof (cases "py_int tok")
    case None
    then show ?thesis by simp
  next
    case (Some i)
    with Cons.prems have "\<exists>tok\<in>set toks. py_int tok = None" by auto
    from Cons.IH [OF this] Some show ?thesis by simp
  qed
qed

lemma spec_resolve_ids_fail:
  assumes "\<exists>tok\<in>set (spec_tokens s). py_int tok = None"
  shows "spec_resolve_ids s = Inl ValueError"
  using ints_of_fail [OF assms] by (simp add: spec_resolve_ids_def)

lemma resolve_ids_fail:
  assumes "\<exists>tok\<in>set (spec_tokens s). py_int tok = None"
  shows "resolve_ids s = Inl ValueError"
  using spec_resolve_ids_fail [OF assms] by (simp add: resolve_ids_cases)

lemma main_resolve_error:
  "resolve_ids (tag_id args) = Inl e \<Longrightarrow> main A E args fs = (Inl e, fs, [])"
  by (simp add: main_def)

text \<open>
  Claim C7: when a token of the id-specification does not parse as an integer, the run
  ends with the exception before anything is produced: no file is written (the files are
  as before) and nothing has been printed.
\<close>

theorem malformed_id_fatal:
  assumes "\<exists>tok\<in>set (spec_tokens (tag_id args)). py_int tok = None"
  shows "main A E args fs = (Inl ValueError, fs, [])"
  using resolve_ids_fail [OF assms] by (rule main_resolve_error)

theorem malformed_id_fatal_witness:
  "(\<exists>tok\<in>set (spec_tokens (tag_id (sample_args ''1,x3''))). py_int tok = None)
   \<and> main exact_arith sample_env (sample_args ''1,x3'') Map.empty = (Inl ValueError, Map.empty, [])"
proof -
  have "tag_id (sample_args ''1,x3'') = ''1,x3''" by (simp add: sample_args_def)
  moreover have "\<exists>tok\<in>set (spec_tokens ''1,x3''). py_int tok = None" by code_simp
  ultimately have bad: "\<exists>tok\<in>set (spec_tokens (tag_id (sample_args ''1,x3''))). py_int tok = None"
    by simp
  from bad malformed_id_fatal [OF bad, of exact_arith sample_env Map.empty]
  show ?thesis by blast
qed

section \<open>Missing tag files\<close>






section \<open>The document as XML\<close>









































section \<open>The canvas of the empty collection\<close>





section \<open>The collection and the output file\<close>







end
